theory Spec2Isabelle
  imports Main "HOL-Library.AList"
begin

section \<open>Text as Python sees it\<close>

text \<open>
  A Python \<open>str\<close> is a sequence of Unicode code points, and the file is opened with
  \<open>encoding="utf-8"\<close>, so every text here is a list of code points. \<open>lit\<close> turns an ASCII
  literal into such a text.
\<close>

type_synonym pystr = "nat list"

definition lit :: "string \<Rightarrow> pystr" where
  "lit s = map of_char s"

text \<open>\<open>FIELD_SEP = "|"\<close>; the line feed and the carriage return.\<close>

definition FIELD_SEP :: nat where
  "FIELD_SEP = 124"

definition LF :: nat where
  "LF = 10"

definition CR :: nat where
  "CR = 13"

text \<open>
  \<open>str.isspace\<close> on one code point: the code points \<open>str.strip()\<close> removes
  (\<open>\t \n \v \f \r\<close>, \<open>0x1c\<close> to \<open>0x1f\<close>, the space, \<open>0x85\<close>, \<open>0xa0\<close> and the
  Unicode spaces from \<open>0x1680\<close> on).
\<close>

definition isspace :: "nat \<Rightarrow> bool" where
  "isspace c \<longleftrightarrow>
     (9 \<le> c \<and> c \<le> 13) \<or> (28 \<le> c \<and> c \<le> 32) \<or> c = 133 \<or> c = 160 \<or> c = 5760 \<or>
     (8192 \<le> c \<and> c \<le> 8202) \<or> c = 8232 \<or> c = 8233 \<or> c = 8239 \<or> c = 8287 \<or> c = 12288"

definition lstrip :: "pystr \<Rightarrow> pystr" where
  "lstrip s = dropWhile isspace s"

definition rstrip :: "pystr \<Rightarrow> pystr" where
  "rstrip s = rev (dropWhile isspace (rev s))"

definition strip :: "pystr \<Rightarrow> pystr" where
  "strip s = rstrip (lstrip s)"

text \<open>
  \<open>s.split(sep)\<close> with a separator of one character: the pieces between the
  separators, so one piece more than there are separators, and \<open>[""]\<close> for the empty
  text.
\<close>

fun split :: "nat \<Rightarrow> pystr \<Rightarrow> pystr list" where
  "split sep [] = [[]]"
| "split sep (c # cs) =
     (if c = sep then [] # split sep cs
      else (case split sep cs of [] \<Rightarrow> [[c]] | p # ps \<Rightarrow> (c # p) # ps))"

section \<open>Integers and floats as text\<close>

text \<open>
  \<open>str(n)\<close> of an \<open>int\<close>, which is what \<open>f"{self.cantidad}"\<close> writes: a minus sign
  for a negative number, then the decimal digits without leading zeros.
  Python's ints are unbounded and so are these; the cap on the number of digits that
  recent interpreters put on the conversion between \<open>int\<close> and \<open>str\<close>, and that a
  program can lift, is left out.
\<close>

fun str_nat :: "nat \<Rightarrow> pystr" where
  "str_nat n = (if n < 10 then [48 + n] else str_nat (n div 10) @ [48 + n mod 10])"

declare str_nat.simps [simp del]

definition str_int :: "int \<Rightarrow> pystr" where
  "str_int i = (if i < 0 then 45 # str_nat (nat (- i)) else str_nat (nat i))"

text \<open>
  What the program takes from the Python runtime and does not define: \<open>float(s)\<close>
  (\<open>None\<close> stands for \<open>ValueError\<close>), the text of a float in an f-string, and the
  Unicode database's decimal value of a code point, which \<open>int(s)\<close> consults for a digit
  outside ASCII. The type \<open>'f\<close> is the runtime's float.
\<close>

record 'f runtime =
  float_of :: "pystr \<Rightarrow> 'f option"
  str_float :: "'f \<Rightarrow> pystr"
  decimal_of :: "nat \<Rightarrow> nat option"

text \<open>
  \<open>int(s)\<close> on a \<open>str\<close>, base 10. The runtime first maps the text to ASCII: a code
  point below 127 stays, a Unicode space becomes a blank, a Unicode decimal digit becomes
  its ASCII digit and anything else \<open>?\<close>. It then skips the C whitespace
  (\<open>\t \n \v \f \r\<close> and the blank), reads an optional sign and a run of digits and
  underscores, where an underscore stands only between two digits, skips C whitespace
  again and must be at the end. \<open>None\<close> stands for \<open>ValueError\<close>.
\<close>

definition to_ascii :: "'f runtime \<Rightarrow> nat \<Rightarrow> nat" where
  "to_ascii rt c =
     (if c < 127 then c
      else if isspace c then 32
      else (case decimal_of rt c of
              Some d \<Rightarrow> if d < 10 then 48 + d else 63
            | None \<Rightarrow> 63))"

definition c_isspace :: "nat \<Rightarrow> bool" where
  "c_isspace c \<longleftrightarrow> (9 \<le> c \<and> c \<le> 13) \<or> c = 32"

definition is_digit :: "nat \<Rightarrow> bool" where
  "is_digit c \<longleftrightarrow> 48 \<le> c \<and> c \<le> 57"

definition digit_or_underscore :: "nat \<Rightarrow> bool" where
  "digit_or_underscore c \<longleftrightarrow> is_digit c \<or> c = 95"

fun double_underscore :: "pystr \<Rightarrow> bool" where
  "double_underscore (a # b # cs) = ((a = 95 \<and> b = 95) \<or> double_underscore (b # cs))"
| "double_underscore _ = False"

definition digits_value :: "pystr \<Rightarrow> nat" where
  "digits_value ds = fold (\<lambda>c acc. 10 * acc + (c - 48)) (filter is_digit ds) 0"

definition py_int :: "'f runtime \<Rightarrow> pystr \<Rightarrow> int option" where
  "py_int rt s =
     (let a = dropWhile c_isspace (map (to_ascii rt) s);
          negative = (case a of [] \<Rightarrow> False | c # _ \<Rightarrow> c = 45);
          b = (case a of [] \<Rightarrow> [] | c # cs \<Rightarrow> if c = 45 \<or> c = 43 then cs else a);
          run = takeWhile digit_or_underscore b;
          rest = dropWhile digit_or_underscore b
      in if run = [] \<or> hd run = 95 \<or> last run = 95 \<or> double_underscore run
            \<or> \<not> list_all c_isspace rest
         then None
         else Some (if negative then - int (digits_value run) else int (digits_value run)))"

section \<open>Producto\<close>

text \<open>The dataclass \<open>Producto\<close>; its field \<open>id\<close> is \<open>id'\<close> here.\<close>

record 'f producto =
  id' :: pystr
  nombre :: pystr
  cantidad :: int
  precio :: 'f

definition to_line :: "'f runtime \<Rightarrow> 'f producto \<Rightarrow> pystr" where
  "to_line rt p =
     id' p @ [FIELD_SEP] @ nombre p @ [FIELD_SEP] @ str_int (cantidad p) @ [FIELD_SEP]
       @ str_float rt (precio p) @ [LF]"

definition from_line :: "'f runtime \<Rightarrow> pystr \<Rightarrow> 'f producto option" where
  "from_line rt line =
     (let parts = split FIELD_SEP (strip line)
      in if length parts \<noteq> 4 then None
         else (case parts of
                 [pid, nombre_s, cantidad_s, precio_s] \<Rightarrow>
                   (case py_int rt cantidad_s of
                      None \<Rightarrow> None
                    | Some cantidad_v \<Rightarrow>
                        (case float_of rt precio_s of
                           None \<Rightarrow> None
                         | Some precio_v \<Rightarrow>
                             Some \<lparr>id' = pid, nombre = nombre_s,
                                   cantidad = cantidad_v, precio = precio_v\<rparr>))
               | _ \<Rightarrow> None))"

section \<open>The backing file and the console\<close>

text \<open>
  The three kinds of \<open>OSError\<close> the handlers tell apart. The file at \<open>ruta\<close> is its
  text, or \<open>None\<close> when the path does not exist; \<open>read_fault\<close> and \<open>write_fault\<close> are
  what opening it for reading or for writing raises (missing permission, another I/O
  error), if anything.
\<close>

datatype oserror = FileNotFoundError | PermissionError | OtherOSError

record disk =
  content :: "pystr option"
  read_fault :: "oserror option"
  write_fault :: "oserror option"

definition open_read :: "disk \<Rightarrow> oserror + pystr" where
  "open_read d =
     (case read_fault d of
        Some e \<Rightarrow> Inl e
      | None \<Rightarrow> (case content d of None \<Rightarrow> Inl FileNotFoundError | Some t \<Rightarrow> Inr t))"

text \<open>
  Opening for writing creates the file, or empties it. A write that fails does so here,
  when the file is opened. What is then written is kept as it is, as on POSIX, where a
  line feed stays a line feed.
\<close>

definition open_write :: "disk \<Rightarrow> oserror + disk" where
  "open_write d =
     (case write_fault d of
        Some e \<Rightarrow> Inl e
      | None \<Rightarrow> Inr (d\<lparr>content := Some []\<rparr>))"

text \<open>
  Reading in text mode translates \<open>\r\n\<close> and a lone \<open>\r\<close> to \<open>\n\<close>; the flag says
  that the code point before was a \<open>\r\<close>. \<open>readlines\<close> cuts the text after each \<open>\n\<close>
  and keeps it at the end of its line.
\<close>

fun universal_newlines :: "bool \<Rightarrow> pystr \<Rightarrow> pystr" where
  "universal_newlines after_cr [] = []"
| "universal_newlines after_cr (c # cs) =
     (if c = CR then LF # universal_newlines True cs
      else if c = LF \<and> after_cr then universal_newlines False cs
      else c # universal_newlines False cs)"

fun cut_lines :: "pystr \<Rightarrow> pystr list" where
  "cut_lines [] = []"
| "cut_lines (c # cs) =
     (if c = LF then [LF] # cut_lines cs
      else (case cut_lines cs of [] \<Rightarrow> [[c]] | l # ls \<Rightarrow> (c # l) # ls))"

definition readlines :: "pystr \<Rightarrow> pystr list" where
  "readlines t = cut_lines (universal_newlines False t)"

text \<open>Every \<open>print\<close> of the class, with the values it interpolates.\<close>

datatype diag =
    InfoCreated
  | ErrCreatePermission
  | ErrCreate oserror
  | WarnNotFound
  | ErrReadPermission
  | ErrRead oserror
  | WarnCorrupt pystr
  | InfoLoaded nat
  | ErrWritePermission
  | ErrWrite oserror
  | WarnDuplicate pystr
  | OkAdded pystr
  | WarnMissing pystr
  | OkUpdated pystr
  | OkDeleted pystr

section \<open>Inventario\<close>

text \<open>
  The object's dictionary \<open>productos\<close>, in insertion order (the order \<open>values()\<close>
  iterates in), together with the file it is bound to and the console it prints on.
  \<open>AList.update\<close> is \<open>d[k] = v\<close>: it replaces the value of a key in place and puts a
  new key last. \<open>AList.delete\<close> is \<open>d.pop(k)\<close> and \<open>map_of\<close> is \<open>d.get(k)\<close>.
\<close>

record 'f inventario =
  productos :: "(pystr \<times> 'f producto) list"
  archivo :: disk
  consola :: "diag list"

definition print :: "diag \<Rightarrow> 'f inventario \<Rightarrow> 'f inventario" where
  "print m s = s\<lparr>consola := consola s @ [m]\<rparr>"

definition ensure_file_exists :: "'f inventario \<Rightarrow> 'f inventario" where
  "ensure_file_exists s =
     (if content (archivo s) \<noteq> None then s
      else (case open_write (archivo s) of
              Inl PermissionError \<Rightarrow> print ErrCreatePermission s
            | Inl e \<Rightarrow> print (ErrCreate e) s
            | Inr d \<Rightarrow> print InfoCreated (s\<lparr>archivo := d\<rparr>)))"

text \<open>The body of the loop over \<open>lineas\<close>, then the loop.\<close>

definition cargar_linea :: "'f runtime \<Rightarrow> pystr \<Rightarrow> 'f inventario \<Rightarrow> 'f inventario" where
  "cargar_linea rt line s =
     (if strip line = [] then s
      else (case from_line rt line of
              None \<Rightarrow> print (WarnCorrupt (strip line)) s
            | Some producto \<Rightarrow>
                s\<lparr>productos := AList.update (id' producto) producto (productos s)\<rparr>))"

fun cargar_lineas :: "'f runtime \<Rightarrow> pystr list \<Rightarrow> 'f inventario \<Rightarrow> 'f inventario" where
  "cargar_lineas rt [] s = s"
| "cargar_lineas rt (line # lineas) s = cargar_lineas rt lineas (cargar_linea rt line s)"

definition cargar_desde_archivo :: "'f runtime \<Rightarrow> 'f inventario \<Rightarrow> 'f inventario" where
  "cargar_desde_archivo rt s =
     (case open_read (archivo s) of
        Inl FileNotFoundError \<Rightarrow> ensure_file_exists (print WarnNotFound s)
      | Inl PermissionError \<Rightarrow> print ErrReadPermission s
      | Inl e \<Rightarrow> print (ErrRead e) s
      | Inr t \<Rightarrow>
          (let s' = cargar_lineas rt (readlines t) (s\<lparr>productos := []\<rparr>)
           in print (InfoLoaded (length (productos s'))) s'))"

text \<open>\<open>f.write(p.to_line())\<close> for every value, on the file just emptied.\<close>

fun write_lines :: "'f runtime \<Rightarrow> 'f producto list \<Rightarrow> pystr \<Rightarrow> pystr" where
  "write_lines rt [] t = t"
| "write_lines rt (p # ps) t = write_lines rt ps (t @ to_line rt p)"

definition guardar_todo :: "'f runtime \<Rightarrow> 'f inventario \<Rightarrow> bool \<times> 'f inventario" where
  "guardar_todo rt s =
     (case open_write (archivo s) of
        Inl PermissionError \<Rightarrow> (False, print ErrWritePermission s)
      | Inl e \<Rightarrow> (False, print (ErrWrite e) s)
      | Inr d \<Rightarrow>
          (True, s\<lparr>archivo := d\<lparr>content :=
                     Some (write_lines rt (map snd (productos s)) [])\<rparr>\<rparr>))"

definition anadir_producto ::
  "'f runtime \<Rightarrow> 'f producto \<Rightarrow> 'f inventario \<Rightarrow> bool \<times> 'f inventario" where
  "anadir_producto rt producto s =
     (if map_of (productos s) (id' producto) \<noteq> None
      then (False, print (WarnDuplicate (id' producto)) s)
      else (case guardar_todo rt
                   (s\<lparr>productos := AList.update (id' producto) producto (productos s)\<rparr>) of
              (True, s') \<Rightarrow> (True, print (OkAdded (nombre producto)) s')
            | (False, s') \<Rightarrow> (False, s')))"

definition actualizar_producto ::
  "'f runtime \<Rightarrow> 'f producto \<Rightarrow> 'f inventario \<Rightarrow> bool \<times> 'f inventario" where
  "actualizar_producto rt producto s =
     (if map_of (productos s) (id' producto) = None
      then (False, print (WarnMissing (id' producto)) s)
      else (case guardar_todo rt
                   (s\<lparr>productos := AList.update (id' producto) producto (productos s)\<rparr>) of
              (True, s') \<Rightarrow> (True, print (OkUpdated (id' producto)) s')
            | (False, s') \<Rightarrow> (False, s')))"

definition eliminar_producto ::
  "'f runtime \<Rightarrow> pystr \<Rightarrow> 'f inventario \<Rightarrow> bool \<times> 'f inventario" where
  "eliminar_producto rt id_producto s =
     (case map_of (productos s) id_producto of
        None \<Rightarrow> (False, print (WarnMissing id_producto) s)
      | Some eliminado \<Rightarrow>
          (case guardar_todo rt (s\<lparr>productos := AList.delete id_producto (productos s)\<rparr>) of
             (True, s') \<Rightarrow> (True, print (OkDeleted (nombre eliminado)) s')
           | (False, s') \<Rightarrow> (False, s')))"

definition obtener_producto ::
  "pystr \<Rightarrow> 'f inventario \<Rightarrow> 'f producto option \<times> 'f inventario" where
  "obtener_producto id_producto s = (map_of (productos s) id_producto, s)"

text \<open>\<open>Inventario(ruta)\<close> on a given file system.\<close>

definition new_inventario :: "'f runtime \<Rightarrow> disk \<Rightarrow> 'f inventario" where
  "new_inventario rt d =
     cargar_desde_archivo rt
       (ensure_file_exists \<lparr>productos = [], archivo = d, consola = []\<rparr>)"

section \<open>A runtime for the examples\<close>

text \<open>
  The examples need a runtime to run on. This one knows two floats, \<open>0.5\<close> and
  \<open>9.99\<close>, converts the texts below as CPython does and rejects every other text;
  outside ASCII it knows the Arabic-Indic digits.
\<close>

datatype sample_float = Float_0_5 | Float_9_99

definition sample_runtime :: "sample_float runtime" where
  "sample_runtime =
     \<lparr>float_of = map_of [(lit ''0.5'', Float_0_5), (lit ''0.50'', Float_0_5),
                          (lit ''9.99'', Float_9_99)],
      str_float = (\<lambda>x. case x of Float_0_5 \<Rightarrow> lit ''0.5'' | Float_9_99 \<Rightarrow> lit ''9.99''),
      decimal_of = (\<lambda>c. if 1632 \<le> c \<and> c \<le> 1641 then Some (c - 1632) else None)\<rparr>"

text \<open>Two products, a readable and writable file with a given text, and a store
  holding given products.\<close>

definition bolt :: "sample_float producto" where
  "bolt = \<lparr>id' = lit ''P1'', nombre = lit ''Bolt'', cantidad = 10, precio = Float_0_5\<rparr>"

definition nut :: "sample_float producto" where
  "nut = \<lparr>id' = lit ''P2'', nombre = lit ''Nut'', cantidad = 7, precio = Float_9_99\<rparr>"

definition file_with :: "pystr \<Rightarrow> disk" where
  "file_with t = \<lparr>content = Some t, read_fault = None, write_fault = None\<rparr>"

definition store_of :: "'f producto list \<Rightarrow> disk \<Rightarrow> 'f inventario" where
  "store_of ps d = \<lparr>productos = map (\<lambda>p. (id' p, p)) ps, archivo = d, consola = []\<rparr>"


definition unreadable :: "pystr \<Rightarrow> disk" where
  "unreadable t = \<lparr>content = Some t, read_fault = Some PermissionError, write_fault = None\<rparr>"

section \<open>What a reload is expected to give\<close>

text \<open>
  In the words of the specification: the lines of the file that are not blank, the
  records parsed from them in file order, the lines among them that do not parse, and the
  dictionary obtained by inserting records one after the other.
\<close>

definition nonblank_lines :: "pystr \<Rightarrow> pystr list" where
  "nonblank_lines t = filter (\<lambda>l. strip l \<noteq> []) (readlines t)"

definition records_of_file :: "'f runtime \<Rightarrow> pystr \<Rightarrow> 'f producto list" where
  "records_of_file rt t = List.map_filter (from_line rt) (nonblank_lines t)"

definition malformed_lines :: "'f runtime \<Rightarrow> pystr \<Rightarrow> pystr list" where
  "malformed_lines rt t = filter (\<lambda>l. from_line rt l = None) (nonblank_lines t)"

definition insert_all ::
  "'f producto list \<Rightarrow> (pystr \<times> 'f producto) list \<Rightarrow> (pystr \<times> 'f producto) list" where
  "insert_all ps d = fold (\<lambda>p. AList.update (id' p) p) ps d"

text \<open>A file with a well-formed line and a line of three fields, and a file with two
  well-formed lines of the same id.\<close>

definition two_line_file :: pystr where
  "two_line_file = lit ''P1|Bolt|10|0.5'' @ [LF] @ lit ''P2|Nut|7'' @ [LF]"

definition same_id_file :: pystr where
  "same_id_file = lit ''P1|Bolt|10|0.5'' @ [LF] @ lit ''P1|Nut|7|9.99'' @ [LF]"

section \<open>Conditions for a line to be read back\<close>

text \<open>
  A text begins with whitespace. A float survives the file: its text has no separator and
  \<open>float\<close> gives the float back from it once the whitespace at its end, which
  \<open>from_line\<close> strips with the line, is gone. CPython's \<open>float\<close> and float text do this for
  every float except NaN, which is not equal to itself.
\<close>

definition leading_space :: "pystr \<Rightarrow> bool" where
  "leading_space s = (case s of [] \<Rightarrow> False | c # _ \<Rightarrow> isspace c)"

definition float_round_trips :: "'f runtime \<Rightarrow> 'f \<Rightarrow> bool" where
  "float_round_trips rt x \<longleftrightarrow>
     FIELD_SEP \<notin> set (str_float rt x) \<and> float_of rt (rstrip (str_float rt x)) = Some x"


section \<open>The line format in the words of the specification\<close>


definition no_line_break :: "pystr \<Rightarrow> bool" where
  "no_line_break t \<longleftrightarrow> LF \<notin> set t \<and> CR \<notin> set t"


section \<open>Conditions for a file to be read back\<close>

text \<open>
  A record survives the file when its line is one line and parses back to it: no
  separator and no line break in the id and the name, no whitespace before the id, and a
  price that survives. A dictionary is keyed by id when no key occurs twice and every
  record stands under its own id, as in every dictionary the class builds.
\<close>

definition survives_file :: "'f runtime \<Rightarrow> 'f producto \<Rightarrow> bool" where
  "survives_file rt p \<longleftrightarrow>
     FIELD_SEP \<notin> set (id' p) \<and> FIELD_SEP \<notin> set (nombre p) \<and> \<not> leading_space (id' p)
     \<and> float_round_trips rt (precio p)
     \<and> no_line_break (id' p) \<and> no_line_break (nombre p)
     \<and> no_line_break (str_float rt (precio p))"

definition keyed_by_id :: "(pystr \<times> 'f producto) list \<Rightarrow> bool" where
  "keyed_by_id d \<longleftrightarrow> distinct (map fst d) \<and> (\<forall>e\<in>set d. id' (snd e) = fst e)"

text \<open>The product \<open>nut\<close> with a separator inside its name.\<close>

definition piped_nut :: "sample_float producto" where
  "piped_nut = nut\<lparr>nombre := lit ''Nu|t''\<rparr>"

section \<open>Splitting and stripping\<close>

text \<open>The definitions to unfold when a text is given in full.\<close>

lemmas eval_defs =
  lit_def strip_def lstrip_def rstrip_def isspace_def FIELD_SEP_def LF_def CR_def
  py_int_def to_ascii_def c_isspace_def is_digit_def digit_or_underscore_def digits_value_def
  sample_runtime_def Let_def

lemma split_not_Nil: "split sep s \<noteq> []"
  by (induction s) (auto split: list.splits)

lemma split_no_sep: "sep \<notin> set s \<Longrightarrow> split sep s = [s]"
  by (induction s) auto

lemma split_append_sep: "sep \<notin> set a \<Longrightarrow> split sep (a @ sep # b) = a # split sep b"
  by (induction a) auto

lemma length_split: "length (split sep s) = Suc (count_list s sep)"
  by (induction s) (auto split: list.splits simp: split_not_Nil)

lemma count_list_dropWhile: "\<not> P x \<Longrightarrow> count_list (dropWhile P s) x = count_list s x"
  by (induction s) auto

lemma isspace_not_sep: "\<not> isspace FIELD_SEP"
  by (simp add: isspace_def FIELD_SEP_def)

lemma count_sep_strip: "count_list (strip s) FIELD_SEP = count_list s FIELD_SEP"
  by (simp add: strip_def lstrip_def rstrip_def count_list_dropWhile isspace_not_sep)

lemma length_4: "length xs = 4 \<longleftrightarrow> (\<exists>a b c d. xs = [a, b, c, d])"
  by (auto simp: length_Suc_conv numeral_eq_Suc)

section \<open>Parsing a line\<close>

lemma from_line_cases:
  "from_line rt line =
     (case split FIELD_SEP (strip line) of
        [a, b, c, d] \<Rightarrow>
          (case py_int rt c of
             None \<Rightarrow> None
           | Some n \<Rightarrow>
               (case float_of rt d of
                  None \<Rightarrow> None
                | Some x \<Rightarrow> Some \<lparr>id' = a, nombre = b, cantidad = n, precio = x\<rparr>))
      | _ \<Rightarrow> None)"
  by (simp add: from_line_def Let_def split: list.splits)

text \<open>
  C3. \<open>from_line\<close> is all or nothing. With \<open>parts\<close> the pieces of the stripped line
  between the separators (one more than the line has separators): the result is
  \<open>None\<close> exactly when there are not four parts, or \<open>int\<close> rejects the third, or
  \<open>float\<close> rejects the fourth; and the result is a record \<open>p\<close> exactly when there are
  four parts, the first two are the id and the name of \<open>p\<close>, and the third and the fourth
  convert to the quantity and the price of \<open>p\<close>. So every record returned has its four
  fields set from the four parts.
\<close>

theorem from_line_all_or_nothing:
  fixes rt :: "'f runtime"
  defines "parts line \<equiv> split FIELD_SEP (strip line)"
  shows "(from_line rt line = None \<longleftrightarrow>
            length (parts line) \<noteq> 4 \<or> py_int rt (parts line ! 2) = None
              \<or> float_of rt (parts line ! 3) = None)
         \<and> (\<forall>p. from_line rt line = Some p \<longleftrightarrow>
              length (parts line) = 4 \<and> id' p = parts line ! 0 \<and> nombre p = parts line ! 1
                \<and> py_int rt (parts line ! 2) = Some (cantidad p)
                \<and> float_of rt (parts line ! 3) = Some (precio p))
         \<and> length (parts line) = Suc (count_list line FIELD_SEP)"
proof -
  have len: "length (parts line) = Suc (count_list line FIELD_SEP)"
    by (simp add: parts_def length_split count_sep_strip)
  show ?thesis
  proof (cases "length (parts line) = 4")
    case True
    then obtain a b c d where abcd: "parts line = [a, b, c, d]"
      by (auto simp: length_4)
    have "from_line rt line =
            (case py_int rt c of
               None \<Rightarrow> None
             | Some n \<Rightarrow>
                 (case float_of rt d of
                    None \<Rightarrow> None
                  | Some x \<Rightarrow> Some \<lparr>id' = a, nombre = b, cantidad = n, precio = x\<rparr>))"
      using abcd by (simp add: from_line_cases parts_def)
    then show ?thesis
      using len abcd by (auto split: option.splits)
  next
    case False
    then have "from_line rt line = None"
      by (simp add: from_line_def parts_def)
    then show ?thesis
      using len False by simp
  qed
qed

theorem from_line_all_or_nothing_witness:
  "from_line sample_runtime (lit ''P1|Bolt|10|0.5'' @ [LF])
     = Some \<lparr>id' = lit ''P1'', nombre = lit ''Bolt'', cantidad = 10, precio = Float_0_5\<rparr>
   \<and> from_line sample_runtime (lit ''P2|Nut|7'' @ [LF]) = None"
proof -
  have a: "split FIELD_SEP (strip (lit ''P1|Bolt|10|0.5'' @ [LF]))
             = [lit ''P1'', lit ''Bolt'', lit ''10'', lit ''0.5'']"
    by (simp add: eval_defs)
  have b: "py_int sample_runtime (lit ''10'') = Some 10"
    by (simp add: eval_defs)
  have c: "float_of sample_runtime (lit ''0.5'') = Some Float_0_5"
    by (simp add: eval_defs)
  have d: "length (split FIELD_SEP (strip (lit ''P2|Nut|7'' @ [LF]))) \<noteq> 4"
    by (simp add: eval_defs)
  show ?thesis
    using from_line_all_or_nothing [of sample_runtime "lit ''P1|Bolt|10|0.5'' @ [LF]"]
      from_line_all_or_nothing [of sample_runtime "lit ''P2|Nut|7'' @ [LF]"] a b c d
    by simp
qed

lemmas example_defs = bolt_def nut_def file_with_def store_of_def

section \<open>The dictionary\<close>

lemma in_keys_iff: "k \<in> fst ` set d \<longleftrightarrow> map_of d k \<noteq> None"
  by (simp add: map_of_eq_None_iff)

section \<open>Persisting\<close>

lemma guardar_todo_cases:
  "guardar_todo rt s =
     (case write_fault (archivo s) of
        Some e \<Rightarrow> (False, print (if e = PermissionError then ErrWritePermission else ErrWrite e) s)
      | None \<Rightarrow> (True, s\<lparr>archivo := (archivo s)\<lparr>content :=
                     Some (write_lines rt (map snd (productos s)) [])\<rparr>\<rparr>))"
  by (cases "write_fault (archivo s)"; cases "the (write_fault (archivo s))")
     (simp_all add: guardar_todo_def open_write_def)


lemma print_fields [simp]:
  "productos (print m s) = productos s" "archivo (print m s) = archivo s"
  "consola (print m s) = consola s @ [m]"
  by (simp_all add: print_def)

text \<open>
  C4. Adding a record whose id is already a key of the dictionary returns \<open>False\<close>
  after the warning that the id exists, and changes neither the dictionary nor the file.
  So after a successful \<open>add\<close> of \<open>r\<close>, adding any record with the id of \<open>r\<close> fails
  in this way.
\<close>

theorem anadir_producto_duplicate:
  "(id' r \<in> fst ` set (productos s) \<longrightarrow>
      anadir_producto rt r s = (False, print (WarnDuplicate (id' r)) s)
      \<and> productos (print (WarnDuplicate (id' r)) s) = productos s
      \<and> archivo (print (WarnDuplicate (id' r)) s) = archivo s)
   \<and> (anadir_producto rt r s = (True, s1) \<and> id' r2 = id' r \<longrightarrow>
        anadir_producto rt r2 s1 = (False, print (WarnDuplicate (id' r2)) s1))"
proof -
  have dup: "anadir_producto rt q t = (False, print (WarnDuplicate (id' q)) t)"
    if "id' q \<in> fst ` set (productos t)" for q :: "'a producto" and t
    using that by (simp add: anadir_producto_def in_keys_iff)
  have added: "id' r \<in> fst ` set (productos s1)" if "anadir_producto rt r s = (True, s1)"
  proof -
    let ?u = "s\<lparr>productos := AList.update (id' r) r (productos s)\<rparr>"
    from that have "map_of (productos s) (id' r) = None"
      by (auto simp: anadir_producto_def split: if_splits)
    with that have "s1 = print (OkAdded (nombre r)) (snd (guardar_todo rt ?u))"
      by (cases "write_fault (archivo s)")
         (auto simp: anadir_producto_def guardar_todo_cases)
    moreover have "productos (snd (guardar_todo rt ?u)) = productos ?u"
      by (simp add: guardar_todo_cases split: option.splits)
    ultimately show ?thesis
      by (simp add: in_keys_iff update_conv')
  qed
  show ?thesis
    using dup [of r s] dup [of r2 s1] added by auto
qed


lemma str_int_10: "str_int 10 = lit ''10''"
  by (simp add: str_int_def str_nat.simps lit_def)

lemma to_line_bolt: "to_line sample_runtime bolt = lit ''P1|Bolt|10|0.5'' @ [LF]"
  by (simp add: to_line_def bolt_def str_int_10) (simp add: eval_defs)

lemma anadir_bolt:
  "anadir_producto sample_runtime bolt (store_of [] (file_with []))
     = (True, \<lparr>productos = [(lit ''P1'', bolt)],
               archivo = file_with (lit ''P1|Bolt|10|0.5'' @ [LF]),
               consola = [OkAdded (lit ''Bolt'')]\<rparr>)"
  by (simp add: anadir_producto_def guardar_todo_cases store_of_def file_with_def print_def
        to_line_bolt)
     (simp add: bolt_def)

theorem anadir_producto_duplicate_witness:
  "anadir_producto sample_runtime (bolt\<lparr>cantidad := 3\<rparr>) (store_of [bolt] (file_with []))
     = (False, print (WarnDuplicate (lit ''P1'')) (store_of [bolt] (file_with [])))
   \<and> anadir_producto sample_runtime (bolt\<lparr>cantidad := 3\<rparr>)
         \<lparr>productos = [(lit ''P1'', bolt)],
          archivo = file_with (lit ''P1|Bolt|10|0.5'' @ [LF]),
          consola = [OkAdded (lit ''Bolt'')]\<rparr>
     = (False, print (WarnDuplicate (lit ''P1''))
         \<lparr>productos = [(lit ''P1'', bolt)],
          archivo = file_with (lit ''P1|Bolt|10|0.5'' @ [LF]),
          consola = [OkAdded (lit ''Bolt'')]\<rparr>)"
proof -
  have a: "id' (bolt\<lparr>cantidad := 3\<rparr>) \<in> fst ` set (productos (store_of [bolt] (file_with [])))"
    by (simp add: store_of_def)
  have b: "id' (bolt\<lparr>cantidad := 3\<rparr>) = id' bolt" "id' bolt = lit ''P1''"
    by (simp_all add: bolt_def)
  show ?thesis
    using anadir_producto_duplicate [where r = "bolt\<lparr>cantidad := 3\<rparr>"
        and s = "store_of [bolt] (file_with [])" and rt = sample_runtime] a
      anadir_producto_duplicate [where r = bolt and s = "store_of [] (file_with [])"
        and rt = sample_runtime and ?r2.0 = "bolt\<lparr>cantidad := 3\<rparr>"
        and ?s1.0 = "\<lparr>productos = [(lit ''P1'', bolt)],
          archivo = file_with (lit ''P1|Bolt|10|0.5'' @ [LF]),
          consola = [OkAdded (lit ''Bolt'')]\<rparr>"]
      anadir_bolt b
    by simp
qed

text \<open>
  C5. For an id that is not a key of the dictionary, update and delete return \<open>False\<close>
  after the warning that no such product exists, with the dictionary and the file as they
  were, and get returns \<open>None\<close> and the state unchanged.
\<close>

theorem unknown_id_not_found:
  assumes "k \<notin> fst ` set (productos s)"
  shows "(id' r = k \<longrightarrow> actualizar_producto rt r s = (False, print (WarnMissing k) s))
         \<and> eliminar_producto rt k s = (False, print (WarnMissing k) s)
         \<and> productos (print (WarnMissing k) s) = productos s
         \<and> archivo (print (WarnMissing k) s) = archivo s
         \<and> obtener_producto k s = (None, s)"
  using assms
  by (simp add: actualizar_producto_def eliminar_producto_def obtener_producto_def in_keys_iff)

theorem unknown_id_not_found_witness:
  "actualizar_producto sample_runtime nut (store_of [bolt] (file_with []))
     = (False, print (WarnMissing (lit ''P2'')) (store_of [bolt] (file_with [])))
   \<and> eliminar_producto sample_runtime (lit ''P2'') (store_of [bolt] (file_with []))
     = (False, print (WarnMissing (lit ''P2'')) (store_of [bolt] (file_with [])))
   \<and> obtener_producto (lit ''P2'') (store_of [bolt] (file_with []))
     = (None, store_of [bolt] (file_with []))"
proof -
  have a: "lit ''P2'' \<notin> fst ` set (productos (store_of [bolt] (file_with [])))"
    by (simp add: bolt_def store_of_def lit_def)
  have b: "id' nut = lit ''P2''"
    by (simp add: nut_def)
  show ?thesis
    using unknown_id_not_found [OF a, of nut sample_runtime] b by simp
qed

section \<open>Failures of the file\<close>



text \<open>
  C7. When opening the file for reading raises an \<open>OSError\<close> (the file is missing, or
  there is no permission, or another I/O error), \<open>cargar_desde_archivo\<close> prints the
  diagnostic of that error first and returns with the dictionary exactly as it was. Only
  for a missing file does it touch the disk, by trying to create the file.
\<close>

theorem cargar_desde_archivo_unreadable:
  assumes "open_read (archivo s) = Inl e"
  shows "productos (cargar_desde_archivo rt s) = productos s
         \<and> (\<exists>ms. consola (cargar_desde_archivo rt s)
                 = consola s
                   @ (case e of FileNotFoundError \<Rightarrow> WarnNotFound
                              | PermissionError \<Rightarrow> ErrReadPermission
                              | OtherOSError \<Rightarrow> ErrRead OtherOSError) # ms)
         \<and> (e \<noteq> FileNotFoundError \<longrightarrow> archivo (cargar_desde_archivo rt s) = archivo s)"
proof (cases e)
  case FileNotFoundError
  have "productos (ensure_file_exists t) = productos t
        \<and> (\<exists>ms. consola (ensure_file_exists t) = consola t @ ms)" for t :: "'a inventario"
    by (cases "write_fault (archivo t)"; cases "the (write_fault (archivo t))")
       (simp_all add: ensure_file_exists_def open_write_def)
  from this [of "print WarnNotFound s"] show ?thesis
    using assms FileNotFoundError by (auto simp: cargar_desde_archivo_def)
next
  case PermissionError
  then show ?thesis
    using assms by (simp add: cargar_desde_archivo_def)
next
  case OtherOSError
  then show ?thesis
    using assms by (simp add: cargar_desde_archivo_def)
qed

theorem cargar_desde_archivo_unreadable_witness:
  "productos (cargar_desde_archivo sample_runtime (store_of [bolt] (unreadable [])))
     = [(lit ''P1'', bolt)]
   \<and> consola (cargar_desde_archivo sample_runtime (store_of [bolt] (unreadable [])))
     = [ErrReadPermission]
   \<and> archivo (cargar_desde_archivo sample_runtime (store_of [bolt] (unreadable [])))
     = unreadable []"
proof -
  have a: "open_read (archivo (store_of [bolt] (unreadable []))) = Inl PermissionError"
    by (simp add: open_read_def store_of_def unreadable_def)
  have b: "consola (cargar_desde_archivo sample_runtime (store_of [bolt] (unreadable [])))
             = [ErrReadPermission]"
    using a by (simp add: cargar_desde_archivo_def store_of_def)
  show ?thesis
    using cargar_desde_archivo_unreadable [OF a, of sample_runtime] b
    by (simp add: store_of_def bolt_def)
qed

section \<open>Loading\<close>

lemma insert_all_simps [simp]:
  "insert_all [] d = d"
  "insert_all (p # ps) d = insert_all ps (AList.update (id' p) p d)"
  "insert_all (ps @ qs) d = insert_all qs (insert_all ps d)"
  by (simp_all add: insert_all_def)

lemma cargar_lineas_productos:
  "productos (cargar_lineas rt ls s)
     = insert_all (List.map_filter (from_line rt) (filter (\<lambda>l. strip l \<noteq> []) ls)) (productos s)"
  by (induction ls arbitrary: s)
     (auto simp: cargar_linea_def map_filter_simps split: option.splits)

lemma cargar_lineas_archivo: "archivo (cargar_lineas rt ls s) = archivo s"
  by (induction ls arbitrary: s) (auto simp: cargar_linea_def split: option.splits)

lemma cargar_lineas_consola:
  "consola (cargar_lineas rt ls s)
     = consola s @ map (\<lambda>l. WarnCorrupt (strip l))
         (filter (\<lambda>l. from_line rt l = None) (filter (\<lambda>l. strip l \<noteq> []) ls))"
  by (induction ls arbitrary: s) (auto simp: cargar_linea_def split: option.splits)

lemma cargar_desde_archivo_readable:
  assumes "open_read (archivo s) = Inr t"
  shows "productos (cargar_desde_archivo rt s) = insert_all (records_of_file rt t) []"
    and "archivo (cargar_desde_archivo rt s) = archivo s"
    and "consola (cargar_desde_archivo rt s)
           = consola s @ map (\<lambda>l. WarnCorrupt (strip l)) (malformed_lines rt t)
               @ [InfoLoaded (length (insert_all (records_of_file rt t) []))]"
  using assms
  by (simp_all add: cargar_desde_archivo_def Let_def cargar_lineas_productos
        cargar_lineas_archivo cargar_lineas_consola records_of_file_def nonblank_lines_def
        malformed_lines_def)

lemma map_of_insert_all_last:
  "(\<forall>q\<in>set ys. id' q \<noteq> id' p) \<Longrightarrow> map_of (insert_all (xs @ p # ys) d) (id' p) = Some p"
  by (induction ys rule: rev_induct) (auto simp: update_conv' simp flip: append_Cons append_assoc)

lemma distinct_insert_all: "distinct (map fst d) \<Longrightarrow> distinct (map fst (insert_all ps d))"
  by (induction ps arbitrary: d) (auto simp: distinct_update)

lemma set_update_subset: "set (AList.update k v d) \<subseteq> insert (k, v) (set d)"
  by (induction d) auto

lemma keys_insert_all: "fst ` set (insert_all ps d) = fst ` set d \<union> id' ` set ps"
  by (induction ps arbitrary: d) (auto simp: dom_update)

lemma in_insert_all:
  "(k, v) \<in> set (insert_all ps d) \<Longrightarrow> (k, v) \<in> set d \<or> (v \<in> set ps \<and> id' v = k)"
proof (induction ps arbitrary: d)
  case Nil
  then show ?case by simp
next
  case (Cons a ps)
  then have "(k, v) \<in> set (AList.update (id' a) a d) \<or> (v \<in> set ps \<and> id' v = k)"
    by simp
  moreover have "set (AList.update (id' a) a d) \<subseteq> insert (id' a, a) (set d)"
    by (rule set_update_subset)
  ultimately show ?case
    by auto
qed

lemma values_insert_all: "(k, v) \<in> set (insert_all ps []) \<Longrightarrow> v \<in> set ps \<and> id' v = k"
  using in_insert_all [of k v ps "[]"] by simp


lemma from_line_blank: "strip l = [] \<Longrightarrow> from_line rt l = None"
  by (simp add: from_line_def)

lemma map_filter_nonblank:
  "List.map_filter (from_line rt) (filter (\<lambda>l. strip l \<noteq> []) ls)
     = List.map_filter (from_line rt) ls"
  by (induction ls) (auto simp: map_filter_simps from_line_blank split: option.splits)

lemma records_of_file_readlines:
  "records_of_file rt t = List.map_filter (from_line rt) (readlines t)"
  by (simp add: records_of_file_def nonblank_lines_def map_filter_nonblank)

lemma map_filter_append:
  "List.map_filter f (xs @ ys) = List.map_filter f xs @ List.map_filter f ys"
  by (simp add: List.map_filter_def)

lemma filter_key_distinct:
  "distinct (map fst d) \<Longrightarrow> map_of d k = Some v \<Longrightarrow> filter (\<lambda>e. fst e = k) d = [(k, v)]"
proof (induction d)
  case Nil
  then show ?case by simp
next
  case (Cons e d)
  show ?case
  proof (cases "fst e = k")
    case True
    from Cons.prems(1) have "fst e \<notin> fst ` set d"
      by simp
    with True have "\<forall>x\<in>set d. fst x \<noteq> k"
      by blast
    then have "filter (\<lambda>e. fst e = k) d = []"
      by (simp add: filter_empty_conv)
    with True Cons.prems show ?thesis
      by (cases e) simp
  next
    case False
    with Cons show ?thesis
      by (cases e) simp
  qed
qed

lemma three_parts_malformed:
  assumes "length (split FIELD_SEP (strip l)) = 3"
  shows "strip l \<noteq> []" "from_line rt l = None"
  using assms by (auto simp: from_line_def)

lemma records_two_lines:
  assumes "ls = [l1, l2] \<or> ls = [l2, l1]" "from_line rt l1 = Some p"
    "length (split FIELD_SEP (strip l2)) = 3"
  shows "List.map_filter (from_line rt) ls = [p]"
  using assms three_parts_malformed(2) [OF assms(3), of rt]
  by (auto simp: map_filter_simps)

text \<open>
  C2. When the file can be read, with text \<open>t\<close>, the reload replaces the dictionary by
  the one built from the records parsed from the non-blank lines of \<open>t\<close>, whatever it
  held before: its keys are the ids of these records and its values are among them. Each
  non-blank line that does not parse is reported by a warning, in file order, before the
  count of loaded records; the file is not touched. A second reload gives the same
  dictionary again. A file of two lines, one that parses to \<open>p\<close> and one with three
  fields, in either order, loads exactly the one record \<open>p\<close>.
\<close>

theorem cargar_desde_archivo_replaces_map:
  fixes s :: "'f inventario" and rt :: "'f runtime"
  assumes "open_read (archivo s) = Inr t"
  defines "s' \<equiv> cargar_desde_archivo rt s"
  shows "productos s' = insert_all (records_of_file rt t) []
    \<and> fst ` set (productos s') = id' ` set (records_of_file rt t)
    \<and> (\<forall>k v. (k, v) \<in> set (productos s') \<longrightarrow> v \<in> set (records_of_file rt t) \<and> id' v = k)
    \<and> consola s' = consola s @ map (\<lambda>l. WarnCorrupt (strip l)) (malformed_lines rt t)
                     @ [InfoLoaded (length (productos s'))]
    \<and> archivo s' = archivo s
    \<and> productos (cargar_desde_archivo rt s') = productos s'
    \<and> archivo (cargar_desde_archivo rt s') = archivo s'
    \<and> (\<forall>l1 l2 p. (readlines t = [l1, l2] \<or> readlines t = [l2, l1])
            \<and> from_line rt l1 = Some p \<and> length (split FIELD_SEP (strip l2)) = 3 \<longrightarrow>
          productos s' = [(id' p, p)])"
proof -
  note r = cargar_desde_archivo_readable [OF assms(1), of rt, folded s'_def]
  have again: "open_read (archivo s') = Inr t"
    using assms(1) r(2) by simp
  note r' = cargar_desde_archivo_readable [OF again, of rt]
  have two: "productos s' = [(id' p, p)]"
    if "readlines t = [l1, l2] \<or> readlines t = [l2, l1]" "from_line rt l1 = Some p"
      "length (split FIELD_SEP (strip l2)) = 3" for l1 l2 p
    using records_two_lines [OF that] r(1) by (simp add: records_of_file_readlines)
  show ?thesis
    using r r' two values_insert_all [of _ _ "records_of_file rt t"]
      keys_insert_all [of "records_of_file rt t" "[]"]
    by (intro conjI allI impI) (simp_all, blast+)
qed


lemma from_line_bolt: "from_line sample_runtime (lit ''P1|Bolt|10|0.5'' @ [LF]) = Some bolt"
  by (simp add: from_line_cases) (simp add: eval_defs bolt_def)

theorem cargar_desde_archivo_replaces_map_witness:
  "productos (cargar_desde_archivo sample_runtime (store_of [nut] (file_with two_line_file)))
     = [(lit ''P1'', bolt)]
   \<and> consola (cargar_desde_archivo sample_runtime (store_of [nut] (file_with two_line_file)))
     = [WarnCorrupt (lit ''P2|Nut|7''), InfoLoaded 1]
   \<and> productos (cargar_desde_archivo sample_runtime
        (cargar_desde_archivo sample_runtime (store_of [nut] (file_with two_line_file))))
     = [(lit ''P1'', bolt)]"
proof -
  let ?s = "store_of [nut] (file_with two_line_file) :: sample_float inventario"
  have a: "open_read (archivo ?s) = Inr two_line_file"
    by (simp add: open_read_def store_of_def file_with_def)
  have b: "readlines two_line_file = [lit ''P1|Bolt|10|0.5'' @ [LF], lit ''P2|Nut|7'' @ [LF]]"
    by (simp add: two_line_file_def readlines_def lit_def LF_def CR_def)
  have c: "length (split FIELD_SEP (strip (lit ''P2|Nut|7'' @ [LF]))) = 3"
    by (simp add: eval_defs)
  have d: "malformed_lines sample_runtime two_line_file = [lit ''P2|Nut|7'' @ [LF]]"
    using three_parts_malformed(1) [OF c] three_parts_malformed(2) [OF c, of sample_runtime]
      from_line_bolt
    by (auto simp: malformed_lines_def nonblank_lines_def b dest: from_line_blank)
  have e: "strip (lit ''P2|Nut|7'' @ [LF]) = lit ''P2|Nut|7''" "id' bolt = lit ''P1''"
    by (simp_all add: eval_defs bolt_def)
  note th = cargar_desde_archivo_replaces_map [where rt = sample_runtime, OF a]
  let ?s' = "cargar_desde_archivo sample_runtime ?s"
  from th b c from_line_bolt have p: "productos ?s' = [(id' bolt, bolt)]"
    by blast
  from th have "consola ?s' = consola ?s
      @ map (\<lambda>l. WarnCorrupt (strip l)) (malformed_lines sample_runtime two_line_file)
      @ [InfoLoaded (length (productos ?s'))]"
    by blast
  moreover from th have "productos (cargar_desde_archivo sample_runtime ?s') = productos ?s'"
    by blast
  ultimately show ?thesis
    using p d e by (simp add: store_of_def)
qed

text \<open>
  C10. After a reload of a readable file no key occurs twice in the dictionary, and when
  a line parses to a record \<open>p\<close> and no later line parses to a record with the id of
  \<open>p\<close>, the only entry for that id is \<open>p\<close>: of several well-formed lines with one id
  the last in file order wins.
\<close>

theorem cargar_desde_archivo_last_line_wins:
  fixes s :: "'f inventario" and rt :: "'f runtime"
  assumes "open_read (archivo s) = Inr t"
  defines "s' \<equiv> cargar_desde_archivo rt s"
  shows "distinct (map fst (productos s'))
    \<and> (\<forall>before l after p.
          readlines t = before @ l # after \<and> from_line rt l = Some p
          \<and> (\<forall>l'\<in>set after. \<forall>q. from_line rt l' = Some q \<longrightarrow> id' q \<noteq> id' p) \<longrightarrow>
          map_of (productos s') (id' p) = Some p
          \<and> filter (\<lambda>e. fst e = id' p) (productos s') = [(id' p, p)])"
proof -
  have prods: "productos s' = insert_all (records_of_file rt t) []"
    unfolding s'_def by (rule cargar_desde_archivo_readable(1) [OF assms(1)])
  have dist: "distinct (map fst (productos s'))"
    by (simp add: prods distinct_insert_all)
  have last: "map_of (productos s') (id' p) = Some p"
    if "readlines t = before @ l # after" "from_line rt l = Some p"
      "\<forall>l'\<in>set after. \<forall>q. from_line rt l' = Some q \<longrightarrow> id' q \<noteq> id' p"
    for before l after p
  proof -
    have "records_of_file rt t
            = List.map_filter (from_line rt) before @ p # List.map_filter (from_line rt) after"
      using that(1,2)
      by (simp add: records_of_file_readlines map_filter_append map_filter_simps)
    moreover have "\<forall>q\<in>set (List.map_filter (from_line rt) after). id' q \<noteq> id' p"
      using that(3) by (auto simp: List.map_filter_def)
    note map_of_insert_all_last [OF this, of "List.map_filter (from_line rt) before" "[]"]
    ultimately show ?thesis
      by (simp only: prods)
  qed
  show ?thesis
    using dist last filter_key_distinct [OF dist] by blast
qed

theorem cargar_desde_archivo_last_line_wins_witness:
  "productos (cargar_desde_archivo sample_runtime (store_of [] (file_with same_id_file)))
     = [(lit ''P1'', nut\<lparr>id' := lit ''P1''\<rparr>)]"
proof -
  let ?s = "store_of [] (file_with same_id_file) :: sample_float inventario"
  let ?s' = "cargar_desde_archivo sample_runtime ?s"
  have a: "open_read (archivo ?s) = Inr same_id_file"
    by (simp add: open_read_def store_of_def file_with_def)
  have b: "readlines same_id_file
             = [lit ''P1|Bolt|10|0.5'' @ [LF]] @ (lit ''P1|Nut|7|9.99'' @ [LF]) # []"
    by (simp add: same_id_file_def readlines_def lit_def LF_def CR_def)
  have c: "from_line sample_runtime (lit ''P1|Nut|7|9.99'' @ [LF])
             = Some (nut\<lparr>id' := lit ''P1''\<rparr>)"
    by (simp add: from_line_cases) (simp add: eval_defs nut_def)
  have d: "id' (nut\<lparr>id' := lit ''P1''\<rparr>) = lit ''P1''"
    by simp
  have keys: "fst ` set (productos ?s') = {lit ''P1''}"
    using cargar_desde_archivo_readable(1) [OF a, of sample_runtime] b c from_line_bolt
    by (simp add: records_of_file_readlines keys_insert_all map_filter_simps bolt_def)
  from cargar_desde_archivo_last_line_wins [where rt = sample_runtime, OF a] b c d
  have "filter (\<lambda>e. fst e = lit ''P1'') (productos ?s') = [(lit ''P1'', nut\<lparr>id' := lit ''P1''\<rparr>)]"
    by (metis empty_iff list.set(1))
  moreover have "filter (\<lambda>e. fst e = lit ''P1'') (productos ?s') = productos ?s'"
    using keys by (auto simp: filter_id_conv)
  ultimately show ?thesis
    by simp
qed

section \<open>Integers as text\<close>

lemma str_nat_digits: "list_all is_digit (str_nat n)"
proof (induction n rule: str_nat.induct)
  case (1 n)
  have d: "is_digit (48 + n mod 10)"
    by (simp add: is_digit_def)
  show ?case
  proof (cases "n < 10")
    case True
    with d show ?thesis
      by (subst str_nat.simps) simp
  next
    case False
    with 1 d show ?thesis
      by (subst str_nat.simps) simp
  qed
qed

lemma str_nat_not_Nil: "str_nat n \<noteq> []"
  by (subst str_nat.simps) simp

lemma digits_value_snoc:
  "is_digit d \<Longrightarrow> digits_value (ds @ [d]) = 10 * digits_value ds + (d - 48)"
  by (simp add: digits_value_def)

lemma digits_value_str_nat: "digits_value (str_nat n) = n"
proof (induction n rule: str_nat.induct)
  case (1 n)
  show ?case
  proof (cases "n < 10")
    case True
    then show ?thesis
      by (subst str_nat.simps) (simp add: digits_value_def is_digit_def)
  next
    case False
    have "is_digit (48 + n mod 10)"
      by (simp add: is_digit_def)
    with False 1 show ?thesis
      by (subst str_nat.simps) (simp add: digits_value_snoc)
  qed
qed

lemma digits_no_double_underscore: "list_all is_digit ds \<Longrightarrow> \<not> double_underscore ds"
  by (induction ds rule: double_underscore.induct) (auto simp: is_digit_def)

lemma digit_facts:
  assumes "is_digit c"
  shows "c < 127" "\<not> c_isspace c" "c \<noteq> 45" "c \<noteq> 43" "c \<noteq> 95" "digit_or_underscore c"
    "c \<noteq> FIELD_SEP" "\<not> isspace c" "c \<noteq> LF" "c \<noteq> CR"
  using assms
  by (auto simp: is_digit_def c_isspace_def digit_or_underscore_def FIELD_SEP_def isspace_def
        LF_def CR_def)

lemma py_int_digits:
  assumes "list_all is_digit ds" "ds \<noteq> []"
  shows "py_int rt ds = Some (int (digits_value ds))"
    and "py_int rt (45 # ds) = Some (- int (digits_value ds))"
proof -
  from assms obtain c cs where ds: "ds = c # cs" "is_digit c"
    by (cases ds) auto
  have ascii: "map (to_ascii rt) ds = ds"
    using assms(1) by (induction ds) (auto simp: to_ascii_def digit_facts)
  have run: "takeWhile digit_or_underscore ds = ds" "dropWhile digit_or_underscore ds = []"
    using assms(1) by (induction ds) (auto simp: digit_facts)
  have ends: "hd ds \<noteq> 95" "last ds \<noteq> 95"
    using assms hd_in_set [of ds] last_in_set [of ds] digit_facts(5)
    by (auto simp: list_all_iff)
  note no_us = digits_no_double_underscore [OF assms(1)]
  have cfacts: "c \<noteq> 45" "c \<noteq> 43" "\<not> c_isspace c"
    using ds(2) by (simp_all add: digit_facts)
  have r: "takeWhile digit_or_underscore (c # cs) = ds" "dropWhile digit_or_underscore (c # cs) = []"
    using run ds(1) by simp_all
  have a: "dropWhile c_isspace (map (to_ascii rt) ds) = c # cs"
    unfolding ascii using ds(1) cfacts by simp
  show "py_int rt ds = Some (int (digits_value ds))"
    unfolding py_int_def Let_def a
    using cfacts ends no_us assms(2)
    by (simp add: r del: takeWhile.simps dropWhile.simps)
  have "map (to_ascii rt) (45 # ds) = 45 # ds"
    using ascii by (simp add: to_ascii_def)
  then have a': "dropWhile c_isspace (map (to_ascii rt) (45 # ds)) = 45 # c # cs"
    using ds(1) by (simp add: c_isspace_def)
  show "py_int rt (45 # ds) = Some (- int (digits_value ds))"
    unfolding py_int_def Let_def a'
    using ends no_us assms(2)
    by (simp add: r del: takeWhile.simps dropWhile.simps)
qed

lemma py_int_str_int: "py_int rt (str_int n) = Some n"
  using py_int_digits [where rt = rt, OF str_nat_digits str_nat_not_Nil]
  by (simp add: str_int_def digits_value_str_nat)

lemma str_int_chars:
  "FIELD_SEP \<notin> set (str_int n)" "LF \<notin> set (str_int n)" "CR \<notin> set (str_int n)"
  using str_nat_digits [of "nat n"] str_nat_digits [of "nat (- n)"]
  by (auto simp: str_int_def list_all_iff FIELD_SEP_def LF_def CR_def dest: digit_facts)

section \<open>A line written and read back\<close>

lemma dropWhile_append_stop: "\<not> P x \<Longrightarrow> dropWhile P (a @ x # b) = dropWhile P a @ x # b"
  by (induction a) auto

lemma lstrip_append_sep: "lstrip (a @ FIELD_SEP # b) = lstrip a @ FIELD_SEP # b"
  by (simp add: lstrip_def dropWhile_append_stop isspace_not_sep)

lemma rstrip_append_sep: "rstrip (a @ FIELD_SEP # b) = a @ FIELD_SEP # rstrip b"
  by (simp add: rstrip_def dropWhile_append_stop isspace_not_sep)

lemma rstrip_LF: "rstrip (a @ [LF]) = rstrip a"
  by (simp add: rstrip_def isspace_def LF_def)

lemma lstrip_subset: "set (lstrip s) \<subseteq> set s"
  by (auto simp: lstrip_def dest: set_dropWhileD)

lemma rstrip_subset: "set (rstrip s) \<subseteq> set s"
  by (auto simp: rstrip_def dest: set_dropWhileD)

lemma lstrip_id_iff: "lstrip s = s \<longleftrightarrow> \<not> leading_space s"
proof (cases s)
  case Nil
  then show ?thesis
    by (simp add: lstrip_def leading_space_def)
next
  case (Cons c cs)
  have "dropWhile isspace cs \<noteq> c # cs"
    using length_dropWhile_le [of isspace cs] by (auto dest: arg_cong [where f = length])
  with Cons show ?thesis
    by (simp add: lstrip_def leading_space_def)
qed

lemma strip_to_line:
  "strip (to_line rt p)
     = lstrip (id' p) @ FIELD_SEP # nombre p @ FIELD_SEP # str_int (cantidad p)
         @ FIELD_SEP # rstrip (str_float rt (precio p))"
proof -
  have "to_line rt p = id' p @ FIELD_SEP # (nombre p @ FIELD_SEP # (str_int (cantidad p)
          @ FIELD_SEP # (str_float rt (precio p) @ [LF])))"
    by (simp add: to_line_def)
  then show ?thesis
    by (simp only: strip_def lstrip_append_sep rstrip_append_sep rstrip_LF)
qed


lemma split_four:
  assumes "FIELD_SEP \<notin> set a" "FIELD_SEP \<notin> set b" "FIELD_SEP \<notin> set c" "FIELD_SEP \<notin> set d"
  shows "split FIELD_SEP (a @ FIELD_SEP # b @ FIELD_SEP # c @ FIELD_SEP # d) = [a, b, c, d]"
  using assms by (simp add: split_append_sep split_no_sep)

lemma from_line_to_line_lstrip:
  assumes "FIELD_SEP \<notin> set (id' p)" "FIELD_SEP \<notin> set (nombre p)"
    "float_round_trips rt (precio p)"
  shows "from_line rt (to_line rt p) = Some (p\<lparr>id' := lstrip (id' p)\<rparr>)"
proof -
  have "FIELD_SEP \<notin> set (lstrip (id' p))"
    "FIELD_SEP \<notin> set (rstrip (str_float rt (precio p)))"
    using assms(1,3) lstrip_subset rstrip_subset by (auto simp: float_round_trips_def)
  with assms(2) have "split FIELD_SEP (strip (to_line rt p))
      = [lstrip (id' p), nombre p, str_int (cantidad p), rstrip (str_float rt (precio p))]"
    unfolding strip_to_line by (intro split_four str_int_chars)
  then show ?thesis
    using assms(3) by (simp add: from_line_cases py_int_str_int float_round_trips_def)
qed


lemma sample_floats_round_trip: "float_round_trips sample_runtime x"
  by (cases x) (simp_all add: float_round_trips_def eval_defs)




section \<open>Lines of a text\<close>

lemma universal_newlines_no_CR: "CR \<notin> set t \<Longrightarrow> universal_newlines False t = t"
  by (induction t) auto

lemma cut_lines_append_LF:
  "LF \<notin> set t \<Longrightarrow> cut_lines (t @ LF # u) = (t @ [LF]) # cut_lines u"
  by (induction t) auto








lemma no_line_break_append [simp]:
  "no_line_break (a @ b) \<longleftrightarrow> no_line_break a \<and> no_line_break b"
  "no_line_break (c # a) \<longleftrightarrow> c \<noteq> LF \<and> c \<noteq> CR \<and> no_line_break a"
  "no_line_break []"
  by (auto simp: no_line_break_def)

lemma no_line_break_str_int: "no_line_break (str_int n)"
  by (simp add: no_line_break_def str_int_chars)

lemma write_lines_concat: "write_lines rt ps t = t @ concat (map (to_line rt) ps)"
  by (induction ps arbitrary: t) auto

lemma guardar_todo_ok:
  assumes "write_fault (archivo s) = None"
  shows "guardar_todo rt s
           = (True, s\<lparr>archivo := (archivo s)\<lparr>content :=
                Some (concat (map (\<lambda>e. to_line rt (snd e)) (productos s)))\<rparr>\<rparr>)"
  using assms by (simp add: guardar_todo_cases write_lines_concat comp_def)




section \<open>A file written and read back\<close>

lemma to_line_body:
  "no_line_break (id' p) \<Longrightarrow> no_line_break (nombre p)
   \<Longrightarrow> no_line_break (str_float rt (precio p))
   \<Longrightarrow> \<exists>b. to_line rt p = b @ [LF] \<and> no_line_break b"
  by (rule exI [where x = "id' p @ FIELD_SEP # nombre p @ FIELD_SEP # str_int (cantidad p)
        @ FIELD_SEP # str_float rt (precio p)"])
     (simp add: to_line_def no_line_break_str_int FIELD_SEP_def LF_def CR_def)

lemma cut_lines_concat:
  assumes "\<forall>l\<in>set ls. \<exists>b. l = b @ [LF] \<and> no_line_break b"
  shows "cut_lines (concat ls) = ls \<and> CR \<notin> set (concat ls)"
  using assms
proof (induction ls)
  case Nil
  then show ?case by simp
next
  case (Cons l ls)
  from Cons.prems obtain b where b: "l = b @ [LF]" "no_line_break b"
    by auto
  from Cons have "cut_lines (concat ls) = ls" "CR \<notin> set (concat ls)"
    by simp_all
  with b show ?case
    by (simp add: cut_lines_append_LF no_line_break_def) (simp add: LF_def CR_def)
qed

lemma readlines_concat:
  assumes "\<forall>l\<in>set ls. \<exists>b. l = b @ [LF] \<and> no_line_break b"
  shows "readlines (concat ls) = ls"
  using cut_lines_concat [OF assms]
  by (simp add: readlines_def universal_newlines_no_CR)

lemma survives_round_trip: "survives_file rt p \<Longrightarrow> from_line rt (to_line rt p) = Some p"
  using from_line_to_line_lstrip [of p rt] 
  by (cases p) (auto simp: survives_file_def lstrip_id_iff [symmetric])

lemma records_of_written_file:
  assumes "\<forall>p\<in>set ps. survives_file rt p"
  shows "records_of_file rt (concat (map (to_line rt) ps)) = ps"
proof -
  have "\<forall>l\<in>set (map (to_line rt) ps). \<exists>b. l = b @ [LF] \<and> no_line_break b"
    using assms by (auto simp: survives_file_def intro: to_line_body)
  then have "readlines (concat (map (to_line rt) ps)) = map (to_line rt) ps"
    by (rule readlines_concat)
  moreover have "List.map_filter (from_line rt) (map (to_line rt) ps) = ps"
    using assms by (induction ps) (simp_all add: map_filter_simps survives_round_trip)
  ultimately show ?thesis
    by (simp add: records_of_file_readlines)
qed

lemma update_new_key: "k \<notin> fst ` set d \<Longrightarrow> AList.update k v d = d @ [(k, v)]"
  by (induction d) auto

lemma insert_all_distinct:
  "distinct (map fst d @ map id' ps) \<Longrightarrow> insert_all ps d = d @ map (\<lambda>p. (id' p, p)) ps"
proof (induction ps arbitrary: d)
  case Nil
  then show ?case by simp
next
  case (Cons p ps)
  then have "id' p \<notin> fst ` set d"
    by auto
  then have "AList.update (id' p) p d = d @ [(id' p, p)]"
    by (rule update_new_key)
  moreover from Cons.prems have "distinct (map fst (d @ [(id' p, p)]) @ map id' ps)"
    by auto
  ultimately show ?case
    using Cons.IH [of "d @ [(id' p, p)]"] by simp
qed

lemma keyed_by_id_values:
  assumes "keyed_by_id d"
  shows "map (\<lambda>p. (id' p, p)) (map snd d) = d" "distinct (map id' (map snd d))"
proof -
  from assms have eq: "map (\<lambda>e. id' (snd e)) d = map fst d"
    by (auto simp: keyed_by_id_def)
  from assms have "map (\<lambda>e. (id' (snd e), snd e)) d = map (\<lambda>e. e) d"
    by (intro map_cong) (auto simp: keyed_by_id_def)
  then show "map (\<lambda>p. (id' p, p)) (map snd d) = d"
    by (simp add: comp_def)
  from eq have "map id' (map snd d) = map fst d"
    by (simp add: comp_def)
  then show "distinct (map id' (map snd d))"
    using assms by (simp only: keyed_by_id_def)
qed

lemma keyed_by_id_update: "keyed_by_id d \<Longrightarrow> keyed_by_id (AList.update (id' r) r d)"
  using set_update_subset [of "id' r" r d]
  by (auto simp: keyed_by_id_def distinct_update)

lemma reload_written_dictionary:
  assumes "keyed_by_id d" "\<forall>e\<in>set d. survives_file rt (snd e)"
  shows "insert_all (records_of_file rt (concat (map (\<lambda>e. to_line rt (snd e)) d))) [] = d"
proof -
  have "records_of_file rt (concat (map (to_line rt) (map snd d))) = map snd d"
    using assms(2) by (intro records_of_written_file) auto
  then have "records_of_file rt (concat (map (\<lambda>e. to_line rt (snd e)) d)) = map snd d"
    by (simp add: comp_def)
  then show ?thesis
    using keyed_by_id_values [OF assms(1)] insert_all_distinct [of "[]" "map snd d"]
    by simp
qed


section \<open>Updating one record\<close>

lemma actualizar_producto_ok:
  assumes "actualizar_producto rt r s = (True, s1)"
  defines "d \<equiv> AList.update (id' r) r (productos s)"
  shows "map_of (productos s) (id' r) \<noteq> None" "write_fault (archivo s) = None"
    "s1 = print (OkUpdated (id' r))
            (s\<lparr>productos := d,
               archivo := (archivo s)\<lparr>content :=
                 Some (concat (map (\<lambda>e. to_line rt (snd e)) d))\<rparr>\<rparr>)"
proof -
  show present: "map_of (productos s) (id' r) \<noteq> None"
    using assms(1) by (auto simp: actualizar_producto_def split: if_splits)
  show w: "write_fault (archivo s) = None"
    using assms(1) present
    by (cases "write_fault (archivo s)") (auto simp: actualizar_producto_def guardar_todo_cases)
  show "s1 = print (OkUpdated (id' r))
            (s\<lparr>productos := d,
               archivo := (archivo s)\<lparr>content :=
                 Some (concat (map (\<lambda>e. to_line rt (snd e)) d))\<rparr>\<rparr>)"
    using assms(1) present w
    by (auto simp: actualizar_producto_def guardar_todo_ok d_def)
qed

lemma update_nth_other:
  "i < length d \<Longrightarrow> fst (d ! i) \<noteq> k \<Longrightarrow> AList.update k v d ! i = d ! i"
proof (induction d arbitrary: i)
  case Nil
  then show ?case by simp
next
  case (Cons e d)
  then show ?case
    by (cases i) auto
qed

lemma update_present_keys: "map_of d k \<noteq> None \<Longrightarrow> map fst (AList.update k v d) = map fst d"
  by (simp add: update_keys map_of_eq_None_iff)

text \<open>
  C9, amended. After a successful update of the record with id \<open>id' r\<close>, a record
  \<open>p2\<close> stored under another id is still stored under it, at the same place of the
  dictionary, and the file is the lines of the dictionary in order; so the line of
  \<open>p2\<close> is written again, byte for byte. That line parses back to \<open>p2\<close> when \<open>p2\<close>
  survives the file, and a reload gives the whole dictionary back, \<open>p2\<close> included, when
  the dictionary is keyed by id, each of its records survives the file and the file can be
  read.
\<close>

theorem actualizar_producto_keeps_other_record:
  fixes s :: "'f inventario" and rt :: "'f runtime"
  assumes "actualizar_producto rt r s = (True, s1)"
    and "map_of (productos s) k2 = Some p2" and "k2 \<noteq> id' r"
  shows "map_of (productos s1) k2 = Some p2
    \<and> map fst (productos s1) = map fst (productos s)
    \<and> (\<exists>i<length (productos s). productos s ! i = (k2, p2) \<and> productos s1 ! i = (k2, p2))
    \<and> content (archivo s1) = Some (concat (map (\<lambda>e. to_line rt (snd e)) (productos s1)))
    \<and> (survives_file rt p2 \<longrightarrow> from_line rt (to_line rt p2) = Some p2)
    \<and> (keyed_by_id (productos s) \<and> (\<forall>e\<in>set (productos s1). survives_file rt (snd e))
         \<and> read_fault (archivo s) = None \<longrightarrow>
         productos (cargar_desde_archivo rt s1) = productos s1
         \<and> map_of (productos (cargar_desde_archivo rt s1)) k2 = Some p2)"
proof -
  let ?d = "AList.update (id' r) r (productos s)"
  note ok = actualizar_producto_ok [OF assms(1)]
  have prods: "productos s1 = ?d"
    and disk_eq: "archivo s1 = (archivo s)\<lparr>content :=
                 Some (concat (map (\<lambda>e. to_line rt (snd e)) ?d))\<rparr>"
    by (simp_all add: ok(3))
  have other: "map_of (productos s1) k2 = Some p2"
    using assms(2,3) by (simp add: prods update_conv')
  have order: "map fst (productos s1) = map fst (productos s)"
    using ok(1) by (simp add: prods update_present_keys)
  from assms(2) have "(k2, p2) \<in> set (productos s)"
    by (rule map_of_SomeD)
  then obtain i where i: "i < length (productos s)" "productos s ! i = (k2, p2)"
    by (auto simp: in_set_conv_nth)
  with assms(3) have "productos s1 ! i = (k2, p2)"
    by (simp add: prods update_nth_other)
  with i have place: "\<exists>i<length (productos s). productos s ! i = (k2, p2)
      \<and> productos s1 ! i = (k2, p2)"
    by blast
  have written: "content (archivo s1) = Some (concat (map (\<lambda>e. to_line rt (snd e)) (productos s1)))"
    by (simp add: disk_eq prods)
  have reload: "productos (cargar_desde_archivo rt s1) = productos s1"
    if "keyed_by_id (productos s)" "\<forall>e\<in>set (productos s1). survives_file rt (snd e)"
      "read_fault (archivo s) = None"
  proof -
    have "open_read (archivo s1)
            = Inr (concat (map (\<lambda>e. to_line rt (snd e)) (productos s1)))"
      using that(3) by (simp add: open_read_def disk_eq prods)
    then have "productos (cargar_desde_archivo rt s1)
        = insert_all (records_of_file rt
            (concat (map (\<lambda>e. to_line rt (snd e)) (productos s1)))) []"
      by (rule cargar_desde_archivo_readable(1))
    moreover have "keyed_by_id (productos s1)"
      using that(1) by (simp add: prods keyed_by_id_update)
    ultimately show ?thesis
      using that(2) by (simp add: reload_written_dictionary)
  qed
  show ?thesis
    using other order place written reload survives_round_trip [of rt p2] by simp
qed


lemma actualizar_producto_success:
  assumes "map_of (productos s) (id' r) \<noteq> None" "write_fault (archivo s) = None"
  shows "actualizar_producto rt r s
    = (True, print (OkUpdated (id' r))
        (s\<lparr>productos := AList.update (id' r) r (productos s),
           archivo := (archivo s)\<lparr>content := Some (concat (map (\<lambda>e. to_line rt (snd e))
             (AList.update (id' r) r (productos s))))\<rparr>\<rparr>))"
  using assms by (auto simp: actualizar_producto_def guardar_todo_ok)

lemma sample_float_text: "no_line_break (str_float sample_runtime x)"
  by (cases x) (simp_all add: sample_runtime_def lit_def LF_def CR_def)

lemma sample_survives:
  "survives_file sample_runtime (bolt\<lparr>cantidad := n\<rparr>)" "survives_file sample_runtime nut"
  by (simp_all add: survives_file_def sample_floats_round_trip sample_float_text
        leading_space_def bolt_def nut_def lit_def FIELD_SEP_def isspace_def LF_def CR_def)

lemma example_ids:
  "id' bolt = lit ''P1''" "id' nut = lit ''P2''" "id' piped_nut = lit ''P2''"
  "lit ''P2'' \<noteq> lit ''P1''" "lit ''P1'' \<noteq> lit ''P2''"
  by (simp_all add: bolt_def nut_def piped_nut_def lit_def)

theorem actualizar_producto_keeps_other_record_witness:
  "productos (cargar_desde_archivo sample_runtime
      (snd (actualizar_producto sample_runtime (bolt\<lparr>cantidad := 3\<rparr>)
             (store_of [bolt, nut] (file_with [])))))
     = [(lit ''P1'', bolt\<lparr>cantidad := 3\<rparr>), (lit ''P2'', nut)]
   \<and> from_line sample_runtime (to_line sample_runtime nut) = Some nut"
proof -
  let ?r = "bolt\<lparr>cantidad := 3\<rparr>"
  let ?s = "store_of [bolt, nut] (file_with []) :: sample_float inventario"
  let ?d = "[(lit ''P1'', ?r), (lit ''P2'', nut)]"
  let ?s1 = "print (OkUpdated (id' ?r))
        (?s\<lparr>productos := AList.update (id' ?r) ?r (productos ?s),
            archivo := (archivo ?s)\<lparr>content := Some (concat (map
              (\<lambda>e. to_line sample_runtime (snd e))
              (AList.update (id' ?r) ?r (productos ?s))))\<rparr>\<rparr>)"
  have upd: "AList.update (id' ?r) ?r (productos ?s) = ?d"
    by (simp add: store_of_def example_ids)
  have a: "actualizar_producto sample_runtime ?r ?s = (True, ?s1)"
    by (rule actualizar_producto_success) (simp_all add: store_of_def file_with_def example_ids)
  have b: "map_of (productos ?s) (lit ''P2'') = Some nut" "lit ''P2'' \<noteq> id' ?r"
    by (simp_all add: store_of_def example_ids)
  have c: "keyed_by_id (productos ?s)" "read_fault (archivo ?s) = None"
    by (simp_all add: keyed_by_id_def store_of_def file_with_def example_ids)
  have d: "productos ?s1 = ?d"
    using upd by simp
  have e: "\<forall>e\<in>set (productos ?s1). survives_file sample_runtime (snd e)"
    unfolding d by (simp add: sample_survives)
  from actualizar_producto_keeps_other_record [OF a b] c e sample_survives(2)
  have p: "productos (cargar_desde_archivo sample_runtime ?s1) = productos ?s1"
    and q: "from_line sample_runtime (to_line sample_runtime nut) = Some nut"
    by blast+
  have sn: "snd (actualizar_producto sample_runtime ?r ?s) = ?s1"
    by (simp only: a snd_conv)
  show ?thesis
    unfolding sn p d using q by (intro conjI refl)
qed


lemma from_line_piped_nut: "from_line sample_runtime (to_line sample_runtime piped_nut) = None"
proof -
  have "count_list (to_line sample_runtime piped_nut) FIELD_SEP = 4"
    by (simp add: to_line_def piped_nut_def nut_def str_int_def str_nat.simps)
       (simp add: sample_runtime_def lit_def FIELD_SEP_def LF_def)
  then have "length (split FIELD_SEP (strip (to_line sample_runtime piped_nut))) = 5"
    by (simp add: length_split count_sep_strip)
  then show ?thesis
    by (simp add: from_line_def)
qed

text \<open>
  C9 as stated fails: with a separator in the name of the second record, the update of
  the first succeeds, the line written for the second does not parse, and the reload
  keeps the first record only.
\<close>

theorem reload_loses_other_record_counterexample:
  "actualizar_producto sample_runtime (bolt\<lparr>cantidad := 3\<rparr>)
       (store_of [bolt, piped_nut] (file_with []))
     = (True, print (OkUpdated (lit ''P1''))
         (store_of [bolt\<lparr>cantidad := 3\<rparr>, piped_nut]
           (file_with (to_line sample_runtime (bolt\<lparr>cantidad := 3\<rparr>)
                        @ to_line sample_runtime piped_nut))))
   \<and> from_line sample_runtime (to_line sample_runtime piped_nut) = None
   \<and> productos (cargar_desde_archivo sample_runtime
        (print (OkUpdated (lit ''P1''))
          (store_of [bolt\<lparr>cantidad := 3\<rparr>, piped_nut]
            (file_with (to_line sample_runtime (bolt\<lparr>cantidad := 3\<rparr>)
                         @ to_line sample_runtime piped_nut)))))
     = [(lit ''P1'', bolt\<lparr>cantidad := 3\<rparr>)]"
proof -
  let ?r = "bolt\<lparr>cantidad := 3\<rparr>"
  let ?t = "to_line sample_runtime ?r @ to_line sample_runtime piped_nut"
  let ?s1 = "print (OkUpdated (lit ''P1'')) (store_of [?r, piped_nut] (file_with ?t))"
  have a: "actualizar_producto sample_runtime ?r (store_of [bolt, piped_nut] (file_with []))
      = (True, ?s1)"
    by (subst actualizar_producto_success)
       (simp_all add: store_of_def file_with_def example_ids print_def)
  have "to_line sample_runtime piped_nut = lit ''P2|Nu|t|7|9.99'' @ [LF]"
    by (simp add: to_line_def piped_nut_def nut_def str_int_def str_nat.simps)
       (simp add: sample_runtime_def lit_def FIELD_SEP_def)
  moreover have "no_line_break (lit ''P2|Nu|t|7|9.99'')"
    by (simp add: lit_def LF_def CR_def)
  moreover have "\<exists>b. to_line sample_runtime ?r = b @ [LF] \<and> no_line_break b"
    using sample_survives(1) [of 3] by (intro to_line_body) (simp_all add: survives_file_def)
  ultimately have "readlines (concat [to_line sample_runtime ?r, to_line sample_runtime piped_nut])
      = [to_line sample_runtime ?r, to_line sample_runtime piped_nut]"
    by (intro readlines_concat) auto
  then have "records_of_file sample_runtime ?t = [?r]"
    using survives_round_trip [OF sample_survives(1) [of 3]] from_line_piped_nut
    by (simp add: records_of_file_readlines map_filter_simps)
  moreover have "open_read (archivo ?s1) = Inr ?t"
    by (simp add: open_read_def store_of_def file_with_def)
  ultimately have "productos (cargar_desde_archivo sample_runtime ?s1) = [(lit ''P1'', ?r)]"
    by (simp add: cargar_desde_archivo_readable(1) example_ids)
  with a from_line_piped_nut show ?thesis
    by simp
qed

section \<open>Every dictionary of the class is keyed by id\<close>

text \<open>
  The dictionary of a new \<open>Inventario\<close> is keyed by id, and reload, add, update and
  delete keep it so.
\<close>

lemma keyed_by_id_insert_all: "keyed_by_id (insert_all ps [])"
  using values_insert_all [of _ _ ps]
  by (auto simp: keyed_by_id_def distinct_insert_all)

lemma set_delete_subset: "set (AList.delete k d) \<subseteq> set d"
  by (induction d) auto

lemma keyed_by_id_delete: "keyed_by_id d \<Longrightarrow> keyed_by_id (AList.delete k d)"
  using set_delete_subset [of k d] by (auto simp: keyed_by_id_def distinct_delete)

lemma ensure_file_exists_productos: "productos (ensure_file_exists s) = productos s"
  by (cases "write_fault (archivo s)"; cases "the (write_fault (archivo s))")
     (simp_all add: ensure_file_exists_def open_write_def)

lemma keyed_by_id_cargar:
  "keyed_by_id (productos s) \<Longrightarrow> keyed_by_id (productos (cargar_desde_archivo rt s))"
proof (cases "open_read (archivo s)")
  case (Inl e)
  assume "keyed_by_id (productos s)"
  with Inl show ?thesis
    by (cases e) (simp_all add: cargar_desde_archivo_def ensure_file_exists_productos)
next
  case (Inr t)
  then show ?thesis
    by (simp add: cargar_desde_archivo_readable(1) keyed_by_id_insert_all)
qed

lemma guardar_todo_productos: "productos (snd (guardar_todo rt s)) = productos s"
  by (simp add: guardar_todo_cases split: option.splits)

lemma keyed_by_id_operations:
  assumes "keyed_by_id (productos s)"
  shows "keyed_by_id (productos (snd (anadir_producto rt r s)))"
    and "keyed_by_id (productos (snd (actualizar_producto rt r s)))"
    and "keyed_by_id (productos (snd (eliminar_producto rt k s)))"
proof -
  have g: "productos t' = productos t" if "guardar_todo rt t = (ok, t')" for t t' ok
    using guardar_todo_productos [of rt t] that by simp
  show "keyed_by_id (productos (snd (anadir_producto rt r s)))"
    using assms keyed_by_id_update [OF assms, of r]
    by (auto simp: anadir_producto_def split: prod.splits bool.splits dest!: g)
  show "keyed_by_id (productos (snd (actualizar_producto rt r s)))"
    using assms keyed_by_id_update [OF assms, of r]
    by (auto simp: actualizar_producto_def split: prod.splits bool.splits dest!: g)
  show "keyed_by_id (productos (snd (eliminar_producto rt k s)))"
    using assms keyed_by_id_delete [OF assms, of k]
    by (auto simp: eliminar_producto_def split: prod.splits bool.splits option.splits dest!: g)
qed

lemma keyed_by_id_new: "keyed_by_id (productos (new_inventario rt d))"
  unfolding new_inventario_def
  by (rule keyed_by_id_cargar) (simp add: ensure_file_exists_productos keyed_by_id_def)

end
